theory Spec2Isabelle
  imports Main
begin

section \<open>The emone script transcriber\<close>

text \<open>
  A shallow embedding of \<^verbatim>\<open>src/transcribe.js\<close>. The source is a pair of state
  machines written in continuation-passing style: every state is a closure over
  \<^verbatim>\<open>emit\<close>, the current state of the machine downstream, and
  \<^verbatim>\<open>emit(v)\<close> returns that machine's next state. Here every closure is a
  constructor of a datatype holding the variables the closure captures, and a
  state's body is a step function returning the values it emits, in order, and
  the next state. No closure looks at \<^verbatim>\<open>emit\<close> other than to call it, so the
  states here do not hold it: the machine of \<^verbatim>\<open>makeParser\<close> below passes every
  emitted value on to the stage downstream, in the order of the calls.

  A character of the text is a \<^typ>\<open>char\<close> and the terminator \<^verbatim>\<open>null\<close> is
  \<^term>\<open>None\<close>. The source walks the text by code point; a code point that is
  not one of the letters and blanks named in the lexer takes the last branch of
  \<^verbatim>\<open>favorConsonant\<close>, as every other \<^typ>\<open>char\<close> does here. Coordinates are
  \<^typ>\<open>int\<close>, so that \<^verbatim>\<open>y - 1\<close> can go below zero where the code lets it.
\<close>

subsection \<open>Phoneme lexer\<close>

text \<open>
  The six shapes of object the lexer passes to \<^verbatim>\<open>emit\<close>, by their
  \<^verbatim>\<open>type\<close> field.
\<close>

datatype phoneme =
    Consonant string
  | Vowel char
  | Diphthong char char
  | Space
  | Newline
  | Error string

text \<open>
  The closures of the lexer. \<^verbatim>\<open>favorConsonant(emit)\<close>, \<^verbatim>\<open>favorVowel(emit)\<close>,
  \<^verbatim>\<open>maybeDiphthong(emit, first)\<close> and \<^verbatim>\<open>space(emit)\<close> are the named states;
  the others are the anonymous \<^verbatim>\<open>(second) => ...\<close> and \<^verbatim>\<open>(third) => ...\<close>
  closures that \<^verbatim>\<open>favorConsonant\<close> returns after \<^verbatim>\<open>q\<close>, \<^verbatim>\<open>g\<close> or
  \<^verbatim>\<open>k\<close> (which keeps \<^verbatim>\<open>first\<close>), \<^verbatim>\<open>c\<close>, \<^verbatim>\<open>n\<close>, \<^verbatim>\<open>b\<close>,
  \<^verbatim>\<open>p\<close>, \<^verbatim>\<open>t\<close>, \<^verbatim>\<open>d\<close>, \<^verbatim>\<open>s\<close> and \<^verbatim>\<open>sc\<close>.
\<close>

datatype lexer =
    FavorConsonant
  | FavorVowel
  | MaybeDiphthong char
  | SpaceRun
  | SecondQ
  | SecondGK char
  | SecondC
  | SecondN
  | SecondB
  | SecondP
  | SecondT
  | SecondD
  | SecondS
  | ThirdSC

text \<open>
  \<^verbatim>\<open>state(emit(p))(c)\<close>: first \<^verbatim>\<open>p\<close> is emitted, then the state runs on
  \<^verbatim>\<open>c\<close> and may emit more.
\<close>

definition emit_then :: "phoneme option list \<Rightarrow> phoneme option list \<times> lexer \<Rightarrow> phoneme option list \<times> lexer" where
  "emit_then evs r = (evs @ fst r, snd r)"

text \<open>The measure under which the re-dispatching calls of the lexer decrease.\<close>

fun lexer_rank :: "lexer \<times> char option \<Rightarrow> nat" where
  "lexer_rank (st, c) =
     (case st of FavorConsonant \<Rightarrow> 0 | FavorVowel \<Rightarrow> 1 | MaybeDiphthong _ \<Rightarrow> 1 | SpaceRun \<Rightarrow> 1
        | SecondQ \<Rightarrow> 20 | _ \<Rightarrow> 2) + (if c = Some CHR ''x'' then 10 else 0)"

text \<open>
  One call \<^verbatim>\<open>state(character)\<close> of the lexer. The cases of each
  \<^verbatim>\<open>switch\<close> are tried in the order of the source, so that \<^verbatim>\<open>y\<close> is a
  consonant in \<^verbatim>\<open>favorConsonant\<close>. For \<^verbatim>\<open>x\<close> the source calls
  \<^verbatim>\<open>favorConsonant(emit)('k')('s')\<close>, and for \<^verbatim>\<open>q\<close>
  \<^verbatim>\<open>favorConsonant(emit)('k')('w')\<close>: in both the inner call
  \<^verbatim>\<open>favorConsonant(emit)('k')\<close> returns the closure \<^term>\<open>SecondGK CHR ''k''\<close>
  and emits nothing, and the outer call runs that closure.
\<close>

function (domintros) lex_step :: "lexer \<Rightarrow> char option \<Rightarrow> phoneme option list \<times> lexer" where
  "lex_step FavorVowel letter =
     (if letter = Some CHR ''w'' \<or> letter = Some CHR ''y''
      then ([], MaybeDiphthong (case letter of Some c \<Rightarrow> c | None \<Rightarrow> CHR ''w''))
      else lex_step FavorConsonant letter)"
| "lex_step FavorConsonant None = ([None], FavorConsonant)"
| "lex_step FavorConsonant (Some first) =
     (if first = CHR 0x0A \<or> first = CHR 0x0D then ([Some Newline], SpaceRun)
      else if first = CHR '' '' then ([Some Space], SpaceRun)
      else if first = CHR ''x'' then lex_step (SecondGK CHR ''k'') (Some CHR ''s'')
      else if first = CHR ''q'' then ([], SecondQ)
      else if first = CHR ''w'' \<or> first = CHR ''y'' then ([Some (Consonant [first])], FavorVowel)
      else if first \<in> set ''eiyaou'' then ([], MaybeDiphthong first)
      else if first \<in> set ''rlmvfjz'' then ([Some (Consonant [first])], FavorVowel)
      else if first = CHR ''g'' \<or> first = CHR ''k'' then ([], SecondGK first)
      else if first = CHR ''c'' then ([], SecondC)
      else if first = CHR ''n'' then ([], SecondN)
      else if first = CHR ''b'' then ([], SecondB)
      else if first = CHR ''p'' then ([], SecondP)
      else if first = CHR ''t'' then ([], SecondT)
      else if first = CHR ''d'' then ([], SecondD)
      else if first = CHR ''s'' then ([], SecondS)
      else ([Some (Error (''unexpected '' @ [first]))], FavorVowel))"
| "lex_step SecondQ second =
     (let next = lex_step (SecondGK CHR ''k'') (Some CHR ''w'')
      in if second \<noteq> Some CHR ''u'' \<and> second \<noteq> Some CHR ''w''
         then emit_then (fst next) (lex_step (snd next) second)
         else next)"
| "lex_step (SecondGK first) second =
     (if second = Some CHR ''h'' then ([Some (Consonant [first, CHR ''h''])], FavorVowel)
      else emit_then [Some (Consonant [first])] (lex_step FavorVowel second))"
| "lex_step SecondC second =
     (if second = Some CHR ''h'' then ([Some (Consonant ''ch'')], FavorVowel)
      else emit_then [Some (Consonant ''k'')] (lex_step FavorVowel second))"
| "lex_step SecondN second =
     (if second = Some CHR ''g'' then ([Some (Consonant ''ng'')], FavorVowel)
      else emit_then [Some (Consonant ''n'')] (lex_step FavorVowel second))"
| "lex_step SecondB second =
     (if second = Some CHR ''h'' then ([Some (Consonant ''v'')], FavorVowel)
      else emit_then [Some (Consonant ''b'')] (lex_step FavorVowel second))"
| "lex_step SecondP second =
     (if second = Some CHR ''h'' then ([Some (Consonant ''f'')], FavorVowel)
      else emit_then [Some (Consonant ''p'')] (lex_step FavorVowel second))"
| "lex_step SecondT second =
     (if second = Some CHR ''h'' \<or> second = Some CHR ''s''
      then ([Some (Consonant (CHR ''t'' # (case second of Some c \<Rightarrow> [c] | None \<Rightarrow> [])))], FavorVowel)
      else emit_then [Some (Consonant ''t'')] (lex_step FavorVowel second))"
| "lex_step SecondD second =
     (if second = Some CHR ''h'' \<or> second = Some CHR ''j'' \<or> second = Some CHR ''z''
      then ([Some (Consonant (CHR ''d'' # (case second of Some c \<Rightarrow> [c] | None \<Rightarrow> [])))], FavorVowel)
      else emit_then [Some (Consonant ''d'')] (lex_step FavorVowel second))"
| "lex_step SecondS second =
     (if second = Some CHR ''c'' then ([], ThirdSC)
      else emit_then [Some (Consonant ''s'')] (lex_step FavorVowel second))"
| "lex_step ThirdSC third =
     (if third = Some CHR ''h'' then ([Some (Consonant ''sh'')], FavorVowel)
      else emit_then [Some (Consonant ''s''), Some (Consonant ''k'')] (lex_step FavorVowel third))"
| "lex_step (MaybeDiphthong first) None = ([Some (Vowel first), None], FavorConsonant)"
| "lex_step (MaybeDiphthong first) (Some second) =
     (if second = CHR '' '' then ([Some (Vowel first), Some Space], SpaceRun)
      else if second \<in> set ''eiyaouw'' then ([Some (Diphthong first second)], FavorConsonant)
      else emit_then [Some (Vowel first)] (lex_step FavorConsonant (Some second)))"
| "lex_step SpaceRun letter =
     (if letter = Some CHR '' '' \<or> letter = Some CHR 0x0A \<or> letter = Some CHR 0x0D \<or> letter = Some CHR 0x09
      then ([], SpaceRun)
      else lex_step FavorConsonant letter)"
  by pat_completeness auto


text \<open>
  The inner call of the \<^verbatim>\<open>q\<close> closure: \<^verbatim>\<open>k\<close> is emitted and \<^verbatim>\<open>w\<close> is held
  as the head of a possible diphthong.
\<close>

lemma qu_head_dom:
  "lex_step_dom (SecondGK CHR ''k'', Some CHR ''w'') \<Longrightarrow>
   lex_step (SecondGK CHR ''k'') (Some CHR ''w'') = ([Some (Consonant ''k'')], MaybeDiphthong CHR ''w'')"
proof -
  assume d: "lex_step_dom (SecondGK CHR ''k'', Some CHR ''w'')"
  have dv: "lex_step_dom (FavorVowel, Some CHR ''w'')"
    by (rule lex_step.domintros) simp_all
  show ?thesis
    by (simp add: lex_step.psimps d dv emit_then_def)
qed

termination lex_step
  by (relation "measure lexer_rank") (auto simp: qu_head_dom)


subsection \<open>Slots\<close>

text \<open>
  A slot object. Its keys \<^verbatim>\<open>x\<close>, \<^verbatim>\<open>y\<close> and \<^verbatim>\<open>empty\<close> are always there;
  \<^verbatim>\<open>center\<close>, the four directions and \<^verbatim>\<open>errors\<close> may be absent. A vowel
  is one letter and a consonant one or two, so a key that is present is truthy.
  \<^term>\<open>strokes\<close> holds, in insertion order, the other keys of the object: the
  stroke names that the embellisher sets to \<^verbatim>\<open>true\<close>. The aligner sets none.
\<close>

record slot =
  slot_x :: int
  slot_y :: int
  is_empty :: bool
  center :: "string option"
  north :: "char option"
  south :: "char option"
  east :: "char option"
  west :: "char option"
  errors :: "string list option"
  strokes :: "string list"

text \<open>The object literal \<^verbatim>\<open>{x: .., y: .., empty: ..}\<close>.\<close>

definition new_slot :: "int \<Rightarrow> int \<Rightarrow> bool \<Rightarrow> slot" where
  "new_slot a b e =
     \<lparr>slot_x = a, slot_y = b, is_empty = e, center = None, north = None, south = None,
      east = None, west = None, errors = None, strokes = []\<rparr>"

text \<open>
  A connector is an object literal with some of the keys \<^verbatim>\<open>empty\<close>,
  \<^verbatim>\<open>center\<close>, \<^verbatim>\<open>north\<close>, \<^verbatim>\<open>south\<close>, \<^verbatim>\<open>east\<close>, \<^verbatim>\<open>west\<close>.
\<close>

record connector =
  c_empty :: "bool option"
  c_center :: "string option"
  c_north :: "char option"
  c_south :: "char option"
  c_east :: "char option"
  c_west :: "char option"

text \<open>The literal \<^verbatim>\<open>{}\<close>.\<close>

definition no_connector :: connector where
  "no_connector =
     \<lparr>c_empty = None, c_center = None, c_north = None, c_south = None, c_east = None,
      c_west = None\<rparr>"

text \<open>The literals \<^verbatim>\<open>{empty: false, center: c}\<close>, \<^verbatim>\<open>{empty: false, north: v}\<close>, ...\<close>

definition center_connector :: "string \<Rightarrow> connector" where
  "center_connector c = no_connector\<lparr>c_empty := Some False, c_center := Some c\<rparr>"

definition north_connector :: "char \<Rightarrow> connector" where
  "north_connector v = no_connector\<lparr>c_empty := Some False, c_north := Some v\<rparr>"

definition south_connector :: "char \<Rightarrow> connector" where
  "south_connector v = no_connector\<lparr>c_empty := Some False, c_south := Some v\<rparr>"

definition east_connector :: "char \<Rightarrow> connector" where
  "east_connector v = no_connector\<lparr>c_empty := Some False, c_east := Some v\<rparr>"

definition west_connector :: "char \<Rightarrow> connector" where
  "west_connector v = no_connector\<lparr>c_empty := Some False, c_west := Some v\<rparr>"

text \<open>\<^verbatim>\<open>k in c ? c[k] : t[k]\<close>, the value of key \<^verbatim>\<open>k\<close> in \<^verbatim>\<open>{...t, ...c}\<close>.\<close>

definition override :: "'a option \<Rightarrow> 'a option \<Rightarrow> 'a option" where
  "override t c = (case c of None \<Rightarrow> t | Some v \<Rightarrow> Some v)"

text \<open>The spread \<^verbatim>\<open>{...term, ...connector}\<close>.\<close>

definition spread :: "slot \<Rightarrow> connector \<Rightarrow> slot" where
  "spread t c =
     t\<lparr>is_empty := (case c_empty c of None \<Rightarrow> is_empty t | Some b \<Rightarrow> b),
       center := override (center t) (c_center c),
       north := override (north t) (c_north c),
       south := override (south t) (c_south c),
       east := override (east t) (c_east c),
       west := override (west t) (c_west c)\<rparr>"

definition appendError :: "slot \<Rightarrow> string \<Rightarrow> slot" where
  "appendError t e = t\<lparr>errors := Some ((case errors t of None \<Rightarrow> [] | Some es \<Rightarrow> es) @ [e])\<rparr>"

subsection \<open>Glyph aligner\<close>

text \<open>
  The closures of the aligner: the open slot \<^verbatim>\<open>term\<close> and the two connectors.
\<close>

datatype aligner =
    BeforeHigh slot
  | High slot connector connector
  | AfterHigh slot connector connector
  | Low slot connector connector
  | AfterLow slot connector connector
  | AlignerEnd

text \<open>
  One call \<^verbatim>\<open>state(phoneme)\<close> of the aligner: the values it passes to
  \<^verbatim>\<open>emit\<close> (a slot, or \<^verbatim>\<open>null\<close>) and the next state. The phonemes are the
  six shapes of \<^typ>\<open>phoneme\<close>, so every \<^verbatim>\<open>switch\<close> finds its case.
\<close>

fun align_step :: "aligner \<Rightarrow> phoneme option \<Rightarrow> slot option list \<times> aligner" where
  "align_step AlignerEnd p = ([None], AlignerEnd)"
| "align_step (BeforeHigh t) None = ([Some t, None], AlignerEnd)"
| "align_step (High t vc cc) None = ([Some t, None], AlignerEnd)"
| "align_step (AfterHigh t c1 c2) None = ([Some t, None], AlignerEnd)"
| "align_step (Low t vc cc) None = ([Some t, None], AlignerEnd)"
| "align_step (AfterLow t c1 c2) None = ([Some t, None], AlignerEnd)"
| "align_step (BeforeHigh t) (Some (Vowel v)) =
     ([], High (t\<lparr>is_empty := False, north := Some v\<rparr>) no_connector (center_connector ''m''))"
| "align_step (BeforeHigh t) (Some (Diphthong a b)) =
     ([Some (t\<lparr>is_empty := False, south := Some a\<rparr>)],
      Low ((new_slot (slot_x t) (slot_y t + 1) False)\<lparr>north := Some b\<rparr>)
        no_connector (center_connector ''m''))"
| "align_step (BeforeHigh t) (Some (Consonant c)) =
     ([], AfterHigh (t\<lparr>is_empty := False, center := Some c\<rparr>)
        (south_connector CHR ''e'') (north_connector CHR ''e''))"
| "align_step (BeforeHigh t) (Some Space) = ([], BeforeHigh t)"
| "align_step (BeforeHigh t) (Some Newline) =
     ([Some t], BeforeHigh (new_slot 0 (slot_y t + 2) True))"
| "align_step (BeforeHigh t) (Some (Error e)) = ([], BeforeHigh (appendError t e))"
| "align_step (High t vc cc) (Some (Vowel v)) =
     ([Some ((spread t cc)\<lparr>is_empty := False, south := Some v\<rparr>)],
      Low (new_slot (slot_x t) (slot_y t + 1) True)
        (north_connector v) (center_connector ''m''))"
| "align_step (High t vc cc) (Some (Diphthong a b)) =
     ([Some ((spread t cc)\<lparr>is_empty := False, south := Some a\<rparr>)],
      Low ((new_slot (slot_x t) (slot_y t + 1) False)\<lparr>north := Some b\<rparr>)
        no_connector (center_connector ''m''))"
| "align_step (High t vc cc) (Some (Consonant c)) =
     ([], AfterHigh ((spread t vc)\<lparr>is_empty := False, center := Some c\<rparr>)
        (south_connector CHR ''e'') (north_connector CHR ''e''))"
| "align_step (High t vc cc) (Some Space) =
     (if west t \<noteq> None \<or> north t \<noteq> None
      then ([Some (t\<lparr>is_empty := False, center := Some ''m''\<rparr>)],
            BeforeHigh (new_slot (slot_x t + 1) (slot_y t) True))
      else ([], BeforeHigh t))"
| "align_step (High t vc cc) (Some Newline) =
     (if west t \<noteq> None
      then ([Some (t\<lparr>is_empty := False, center := Some ''m''\<rparr>)],
            BeforeHigh (new_slot 0 (slot_y t + 2) True))
      else ([Some t], BeforeHigh (new_slot 0 (slot_y t + 2) True)))"
| "align_step (High t vc cc) (Some (Error e)) = ([], High (appendError t e) vc cc)"
| "align_step (AfterHigh t c1 c2) (Some (Vowel v)) =
     ([Some (t\<lparr>is_empty := False, south := Some v\<rparr>)],
      Low (new_slot (slot_x t) (slot_y t + 1) True)
        (north_connector v) (center_connector ''m''))"
| "align_step (AfterHigh t c1 c2) (Some (Diphthong a b)) =
     ([Some (t\<lparr>is_empty := False, south := Some a\<rparr>)],
      Low ((new_slot (slot_x t) (slot_y t + 1) False)\<lparr>north := Some b\<rparr>)
        no_connector (center_connector ''m''))"
| "align_step (AfterHigh t c1 c2) (Some (Consonant c)) =
     ([Some (spread t c1)],
      AfterLow ((spread (new_slot (slot_x t) (slot_y t + 1) False) c2)
                  \<lparr>is_empty := False, center := Some c\<rparr>)
        (east_connector CHR ''e'') (west_connector CHR ''e''))"
| "align_step (AfterHigh t c1 c2) (Some Space) =
     ([Some t], BeforeHigh (new_slot (slot_x t + 1) (slot_y t) True))"
| "align_step (AfterHigh t c1 c2) (Some Newline) =
     ([Some t], BeforeHigh (new_slot 0 (slot_y t + 2) True))"
| "align_step (AfterHigh t c1 c2) (Some (Error e)) = ([], AfterHigh (appendError t e) c1 c2)"
| "align_step (Low t vc cc) (Some (Vowel v)) =
     ([Some ((spread t cc)\<lparr>is_empty := False, east := Some v\<rparr>)],
      High (new_slot (slot_x t + 1) (slot_y t - 1) True)
        (west_connector v) (center_connector ''m''))"
| "align_step (Low t vc cc) (Some (Diphthong a b)) =
     ([Some ((spread t cc)\<lparr>is_empty := False, east := Some a\<rparr>)],
      High ((new_slot (slot_x t + 1) (slot_y t - 1) False)\<lparr>west := Some b\<rparr>)
        no_connector (center_connector ''m''))"
| "align_step (Low t vc cc) (Some (Consonant c)) =
     ([], AfterLow ((spread t vc)\<lparr>is_empty := False, center := Some c\<rparr>)
        (east_connector CHR ''e'') (west_connector CHR ''e''))"
| "align_step (Low t vc cc) (Some Space) = ([], AfterLow t no_connector no_connector)"
| "align_step (Low t vc cc) (Some Newline) =
     ([Some t], BeforeHigh (new_slot 0 (slot_y t + 1) True))"
| "align_step (Low t vc cc) (Some (Error e)) = ([], Low (appendError t e) vc cc)"
| "align_step (AfterLow t c1 c2) (Some (Vowel v)) =
     ([Some (t\<lparr>is_empty := False, east := Some v\<rparr>)],
      High (new_slot (slot_x t + 1) (slot_y t - 1) True)
        (west_connector v) (center_connector ''m''))"
| "align_step (AfterLow t c1 c2) (Some (Diphthong a b)) =
     ([Some (t\<lparr>is_empty := False, east := Some a\<rparr>)],
      High ((new_slot (slot_x t + 1) (slot_y t - 1) False)\<lparr>west := Some b\<rparr>)
        no_connector (center_connector ''m''))"
| "align_step (AfterLow t c1 c2) (Some (Consonant c)) =
     ([Some (spread t c1)],
      AfterHigh ((spread (new_slot (slot_x t + 1) (slot_y t - 1) False) c2)
                   \<lparr>is_empty := False, center := Some c\<rparr>)
        (south_connector CHR ''e'') (north_connector CHR ''e''))"
| "align_step (AfterLow t c1 c2) (Some Space) =
     ([Some t], High (new_slot (slot_x t + 1) (slot_y t - 1) True) no_connector no_connector)"
| "align_step (AfterLow t c1 c2) (Some Newline) =
     ([Some t], BeforeHigh (new_slot 0 (slot_y t + 1) True))"
| "align_step (AfterLow t c1 c2) (Some (Error e)) = ([], AfterLow (appendError t e) c1 c2)"

text \<open>\<^verbatim>\<open>aligner(emit)\<close>: the initial state.\<close>

definition aligner_start :: aligner where
  "aligner_start = BeforeHigh (new_slot 0 0 True)"

subsection \<open>Collector and parser\<close>

text \<open>
  \<^verbatim>\<open>collector(head, cb)\<close>, and \<^verbatim>\<open>eof\<close>, which the callback of
  \<^verbatim>\<open>makeParser\<close> returns. The slot list beside the collector is the variable
  \<^verbatim>\<open>result\<close> of \<^verbatim>\<open>makeParser\<close>, which the callback assigns.
\<close>

datatype collector = Collector "slot list" | Eof

fun collect :: "collector \<times> slot list \<Rightarrow> slot option \<Rightarrow> collector \<times> slot list" where
  "collect (Collector head, result) None = (Eof, head)"
| "collect (Collector head, result) (Some tail) = (Collector (head @ [tail]), result)"
| "collect (Eof, result) tail = (Eof, result)"

text \<open>
  The tangled machine: the lexer closes over the aligner, the aligner over the
  collector, the collector's callback over \<^verbatim>\<open>result\<close>.
\<close>

record machine =
  lexer_state :: lexer
  aligner_state :: aligner
  collector_state :: collector
  result :: "slot list"

text \<open>A call \<^verbatim>\<open>emit(phoneme)\<close> from the lexer: the aligner runs and emits slots.\<close>

definition emit_phoneme :: "aligner \<times> collector \<times> slot list \<Rightarrow> phoneme option \<Rightarrow>
    aligner \<times> collector \<times> slot list" where
  "emit_phoneme s p =
     (case align_step (fst s) p of (out, a) \<Rightarrow> (a, foldl collect (snd s) out))"

text \<open>\<^verbatim>\<open>state = state(character)\<close>.\<close>

definition feed :: "machine \<Rightarrow> char option \<Rightarrow> machine" where
  "feed m c =
     (case lex_step (lexer_state m) c of (out, l) \<Rightarrow>
        (case foldl emit_phoneme (aligner_state m, collector_state m, result m) out of
           (a, k, r) \<Rightarrow>
             \<lparr>lexer_state = l, aligner_state = a, collector_state = k, result = r\<rparr>))"

text \<open>\<^verbatim>\<open>start(cb)\<close>, with \<^verbatim>\<open>result = []\<close>.\<close>

definition start :: machine where
  "start =
     \<lparr>lexer_state = FavorConsonant, aligner_state = aligner_start,
      collector_state = Collector [], result = []\<rparr>"

text \<open>The loop of \<^verbatim>\<open>makeParser\<close> over the characters, then the terminator.\<close>

definition run :: "string \<Rightarrow> machine" where
  "run text = feed (foldl feed start (map Some text)) None"

definition parse :: "string \<Rightarrow> slot list" where
  "parse text = result (run text)"

subsection \<open>Embellisher and size\<close>

text \<open>The table \<^verbatim>\<open>consonantGlyphs\<close>, each entry with its keys in order.\<close>

definition consonantGlyphs :: "(string \<times> string list) list" where
  "consonantGlyphs =
    [(''l'', [''l'']),
     (''r'', [''r'']),
     (''w'', [''consonantal-w'']),
     (''y'', [''consonantal-y'']),
     (''m'', [''labial'']),
     (''b'', [''labial'', ''plosive'']),
     (''p'', [''labial'', ''plosive'', ''plosive-unvoiced'']),
     (''v'', [''labial'', ''fricative'']),
     (''f'', [''labial'', ''fricative'', ''fricative-unvoiced'']),
     (''n'', [''labial'', ''dental'']),
     (''d'', [''labial'', ''dental'', ''plosive'']),
     (''t'', [''labial'', ''dental'', ''plosive'', ''plosive-unvoiced'']),
     (''dh'', [''labial'', ''dental'', ''fricative'']),
     (''th'', [''labial'', ''dental'', ''fricative'', ''fricative-unvoiced'']),
     (''ng'', [''labial'', ''palatal'']),
     (''g'', [''labial'', ''palatal'', ''plosive'']),
     (''k'', [''labial'', ''palatal'', ''plosive'', ''plosive-unvoiced'']),
     (''gh'', [''labial'', ''palatal'', ''fricative'']),
     (''kh'', [''labial'', ''palatal'', ''fricative'', ''fricative-unvoiced'']),
     (''dz'', [''labial'', ''dental'', ''dental-alveolar'', ''plosive'']),
     (''ts'', [''labial'', ''dental'', ''dental-alveolar'', ''plosive'', ''plosive-unvoiced'']),
     (''z'', [''labial'', ''dental'', ''dental-alveolar'', ''fricative'']),
     (''s'', [''labial'', ''dental'', ''dental-alveolar'', ''fricative'', ''fricative-unvoiced'']),
     (''dj'', [''labial'', ''palatal'', ''palatal-alveolar'', ''plosive'']),
     (''ch'', [''labial'', ''palatal'', ''palatal-alveolar'', ''plosive'', ''plosive-unvoiced'']),
     (''j'', [''labial'', ''palatal'', ''palatal-alveolar'', ''fricative'']),
     (''sh'', [''labial'', ''palatal'', ''palatal-alveolar'', ''fricative'',
               ''fricative-unvoiced''])]"

text \<open>The keys of \<^verbatim>\<open>vowelGlyphs\<close>.\<close>

definition vowelGlyphs :: "string list" where
  "vowelGlyphs =
    [''e-west-outer'', ''e-west-inner'', ''e-east-outer-inner'', ''e-east-outer-outer'',
     ''e-east-outer'', ''e-east-inner-outer'', ''e-east-inner-inner'', ''e-east-inner'',
     ''e-south-outer-outer'', ''e-south-outer'', ''e-south-inner-inner'', ''e-south-inner'',
     ''e-north-outer-outer'', ''e-north-inner-inner'', ''e-north-outer'', ''e-north-inner'',
     ''i-west-outer'', ''i-west-inner'', ''i-east-outer-outer'', ''i-east-outer-inner'',
     ''i-east-outer'', ''i-east-inner-outer'', ''i-east-inner-inner'', ''i-east-inner'',
     ''i-south-outer-outer'', ''i-south-outer-inner'', ''i-south-outer'', ''i-south-inner'',
     ''i-south-inner-outer'', ''i-south-inner-inner'', ''i-north-outer'', ''i-north-inner'',
     ''y-west-outer'', ''y-west-inner'', ''y-east-outer-outer'', ''y-east-outer-inner'',
     ''y-east-outer'', ''y-east-inner-inner'', ''y-east-inner-outer'', ''y-east-inner'',
     ''y-south-outer-outer'', ''y-south-outer'', ''y-south-inner'', ''y-north-outer-outer'',
     ''y-north-outer'', ''y-north-inner'',
     ''a-west-outer'', ''a-west-inner'', ''a-east-outer-outer'', ''a-east-outer'',
     ''a-east-inner-inner'', ''a-east-inner'', ''a-south-outer-outer'', ''a-south-outer'',
     ''a-south-inner'', ''a-north-outer-outer'', ''a-north-outer'', ''a-north-inner'',
     ''o-west-outer'', ''o-west-inner'', ''o-east-outer-outer'', ''o-east-outer'',
     ''o-east-inner'', ''o-south-outer'', ''o-south-inner'', ''o-north-outer'',
     ''o-north-inner'',
     ''u-west-outer'', ''u-west-inner'', ''u-east-outer-outer'', ''u-east-outer'',
     ''u-east-inner-inner'', ''u-east-inner'', ''u-south-outer-outer'', ''u-south-outer'',
     ''u-south-inner'', ''u-north-outer-outer'', ''u-north-outer'', ''u-north-inner'',
     ''w-west-outer'', ''w-west-inner'', ''w-east-outer-outer'', ''w-east-outer'',
     ''w-east-inner'', ''w-south-outer'', ''w-south-inner'', ''w-north-outer'',
     ''w-north-inner'']"

text \<open>
  \<^verbatim>\<open>{...glyph, [name]: true}\<close>: a key that the object has keeps its place, a new
  key goes last.
\<close>

definition set_key :: "string \<Rightarrow> slot \<Rightarrow> slot" where
  "set_key name g = (if name \<in> set (strokes g) then g else g\<lparr>strokes := strokes g @ [name]\<rparr>)"

text \<open>\<^verbatim>\<open>{...glyph, ...(consonantGlyphs[glyph.center] || {})}\<close>.\<close>

definition features :: "slot \<Rightarrow> string list" where
  "features g =
     (case center g of None \<Rightarrow> []
      | Some c \<Rightarrow> (case map_of consonantGlyphs c of None \<Rightarrow> [] | Some fs \<Rightarrow> fs))"

definition add_features :: "slot \<Rightarrow> slot" where
  "add_features g = foldl (\<lambda>h name. set_key name h) g (features g)"

text \<open>The two fields of \<^verbatim>\<open>io(glyph)\<close>.\<close>

definition io_left :: "slot \<Rightarrow> string" where
  "io_left g = (if ''dental'' \<in> set (strokes g) then ''outer'' else ''inner'')"

definition io_right :: "slot \<Rightarrow> string" where
  "io_right g = (if ''palatal'' \<in> set (strokes g) then ''outer'' else ''inner'')"

text \<open>
  The body of the second \<^verbatim>\<open>map\<close> of \<^verbatim>\<open>embelish\<close> at one glyph. \<^verbatim>\<open>next\<close> is
  \<^verbatim>\<open>glyphs[i+1]\<close>, or \<^term>\<open>None\<close> for the fresh \<^verbatim>\<open>{}\<close> past the end. The body
  returns the new glyph and \<^verbatim>\<open>next\<close> as its \<^verbatim>\<open>delete\<close>s leave it: the array
  that \<^verbatim>\<open>map\<close> walks holds that object, so the next call sees the deletion.
\<close>

definition embelish_glyph :: "slot \<Rightarrow> slot option \<Rightarrow> slot \<times> slot option" where
  "embelish_glyph glyph nxt =
     (let left = io_left glyph;
          right = io_right glyph;
          nextLeft = (case nxt of None \<Rightarrow> ''inner'' | Some n \<Rightarrow> io_left n);
          g1 = (case west glyph of None \<Rightarrow> glyph
                | Some v \<Rightarrow> set_key (v # ''-west-'' @ left) glyph);
          g2 = (case north g1 of None \<Rightarrow> g1
                | Some v \<Rightarrow> set_key (v # ''-north-'' @ left) g1);
          r3 = (case east g2 of None \<Rightarrow> (g2, nxt)
                | Some v \<Rightarrow>
                    (let name = v # ''-east-'' @ right;
                         longName = v # ''-east-'' @ right @ ''-'' @ nextLeft
                     in if (case nxt of None \<Rightarrow> False | Some n \<Rightarrow> west n = Some v)
                           \<and> longName \<in> set vowelGlyphs
                        then (set_key longName g2, map_option (\<lambda>n. n\<lparr>west := None\<rparr>) nxt)
                        else (set_key name g2, nxt)));
          g3 = fst r3;
          n3 = snd r3
      in (case south g3 of None \<Rightarrow> (g3, n3)
          | Some v \<Rightarrow>
              (let name = v # ''-south-'' @ right;
                   longName = v # ''-south-'' @ right @ ''-'' @ nextLeft
               in if (case n3 of None \<Rightarrow> False | Some n \<Rightarrow> north n = Some v)
                     \<and> longName \<in> set vowelGlyphs
                  then (set_key longName g3, map_option (\<lambda>n. n\<lparr>north := None\<rparr>) n3)
                  else (set_key name g3, n3))))"

text \<open>The second \<^verbatim>\<open>map\<close>, left to right.\<close>

fun embelish_pass :: "slot list \<Rightarrow> slot list" where
  "embelish_pass [] = []"
| "embelish_pass [g] = [fst (embelish_glyph g None)]"
| "embelish_pass (g # n # rest) =
     (case embelish_glyph g (Some n) of
        (g', n') \<Rightarrow> g' # embelish_pass ((case n' of None \<Rightarrow> n | Some m \<Rightarrow> m) # rest))"

definition embelish :: "slot list \<Rightarrow> slot list" where
  "embelish glyphs = embelish_pass (map add_features (filter (\<lambda>g. \<not> is_empty g) glyphs))"

text \<open>\<^verbatim>\<open>measure\<close>: the two \<^verbatim>\<open>reduce\<close> calls, from 1.\<close>

record dimensions =
  size_x :: int
  size_y :: int

definition measure_glyphs :: "slot list \<Rightarrow> dimensions" where
  "measure_glyphs glyphs =
     \<lparr>size_x = foldl (\<lambda>m g. max (slot_x g + 1) m) 1 glyphs,
      size_y = foldl (\<lambda>m g. max (slot_y g + 1) m) 1 glyphs\<rparr>"

record glyph_model =
  model_glyphs :: "slot list"
  model_size :: dimensions

definition transcribe :: "string \<Rightarrow> glyph_model" where
  "transcribe text =
     (let glyphs = embelish (parse text) in
      \<lparr>model_glyphs = glyphs, model_size = measure_glyphs glyphs\<rparr>)"

subsection \<open>The streams between the stages\<close>

text \<open>
  What a stage emits over a whole input: the step function iterated, the emitted
  values in order, and the state it ends in.
\<close>

fun lex_run :: "lexer \<Rightarrow> char option list \<Rightarrow> phoneme option list \<times> lexer" where
  "lex_run l [] = ([], l)"
| "lex_run l (c # cs) = (case lex_step l c of (out, l') \<Rightarrow> emit_then out (lex_run l' cs))"

fun align_run :: "aligner \<Rightarrow> phoneme option list \<Rightarrow> slot option list \<times> aligner" where
  "align_run a [] = ([], a)"
| "align_run a (p # ps) =
     (case align_step a p of (out, a') \<Rightarrow>
        (case align_run a' ps of (outs, a'') \<Rightarrow> (out @ outs, a'')))"

text \<open>The characters \<^verbatim>\<open>makeParser\<close> passes to the lexer: the text, then \<^verbatim>\<open>null\<close>.\<close>

definition terminated :: "string \<Rightarrow> char option list" where
  "terminated text = map Some text @ [None]"

text \<open>Everything the lexer emits on a text, and the phonemes among it.\<close>

definition lex :: "string \<Rightarrow> phoneme option list" where
  "lex text = fst (lex_run FavorConsonant (terminated text))"

fun somes :: "'a option list \<Rightarrow> 'a list" where
  "somes [] = []"
| "somes (None # xs) = somes xs"
| "somes (Some x # xs) = x # somes xs"

definition phonemes :: "string \<Rightarrow> phoneme list" where
  "phonemes text = somes (lex text)"

text \<open>Everything the aligner emits on a text.\<close>

definition align :: "string \<Rightarrow> slot option list" where
  "align text = fst (align_run aligner_start (lex text))"

text \<open>The slot a state of the aligner holds open.\<close>

fun open_slot :: "aligner \<Rightarrow> slot option" where
  "open_slot (BeforeHigh t) = Some t"
| "open_slot (High t vc cc) = Some t"
| "open_slot (AfterHigh t c1 c2) = Some t"
| "open_slot (Low t vc cc) = Some t"
| "open_slot (AfterLow t c1 c2) = Some t"
| "open_slot AlignerEnd = None"

text \<open>\<^verbatim>\<open>term.errors || []\<close>.\<close>

definition slot_errors :: "slot \<Rightarrow> string list" where
  "slot_errors s = (case errors s of None \<Rightarrow> [] | Some es \<Rightarrow> es)"

subsection \<open>Coordinates\<close>

text \<open>
  A slot on the grid, and the rows the states of the aligner stand on: a low state
  is at least one row down.
\<close>

definition coords_ok :: "slot \<Rightarrow> bool" where
  "coords_ok s = (0 \<le> slot_x s \<and> 0 \<le> slot_y s)"

fun rows_ok :: "aligner \<Rightarrow> bool" where
  "rows_ok (BeforeHigh t) = (0 \<le> slot_x t \<and> 0 \<le> slot_y t)"
| "rows_ok (High t vc cc) = (0 \<le> slot_x t \<and> 0 \<le> slot_y t)"
| "rows_ok (AfterHigh t c1 c2) = (0 \<le> slot_x t \<and> 0 \<le> slot_y t)"
| "rows_ok (Low t vc cc) = (0 \<le> slot_x t \<and> 1 \<le> slot_y t)"
| "rows_ok (AfterLow t c1 c2) = (0 \<le> slot_x t \<and> 1 \<le> slot_y t)"
| "rows_ok AlignerEnd = True"

subsection \<open>Observations on the aligner\<close>

text \<open>
  The low states; a step that moves the open slot one column to the right; and the
  state the aligner is in once the machine has read a text (before the terminator).
\<close>

fun is_low :: "aligner \<Rightarrow> bool" where
  "is_low (Low t vc cc) = True"
| "is_low (AfterLow t c1 c2) = True"
| "is_low a = False"

text \<open>The open slot after the step is one column right of the open slot before.\<close>

definition column_advance :: "aligner \<Rightarrow> aligner \<Rightarrow> bool" where
  "column_advance a a' =
     (case (open_slot a, open_slot a') of
        (Some t, Some t') \<Rightarrow> slot_x t' = slot_x t + 1
      | _ \<Rightarrow> False)"

definition aligner_after :: "string \<Rightarrow> aligner" where
  "aligner_after text = aligner_state (foldl feed start (map Some text))"

subsection \<open>Vowel symbols\<close>

text \<open>
  The letters that reach \<^verbatim>\<open>maybeDiphthong\<close>, as its \<^verbatim>\<open>first\<close> or as the
  \<^verbatim>\<open>second\<close> of a diphthong: the six vowels and \<^verbatim>\<open>w\<close>.
\<close>

fun vowel_symbols_ok :: "phoneme \<Rightarrow> bool" where
  "vowel_symbols_ok (Vowel v) = (v \<in> set ''eiyaouw'')"
| "vowel_symbols_ok (Diphthong a b) = (a \<in> set ''eiyaouw'' \<and> b \<in> set ''eiyaouw'')"
| "vowel_symbols_ok p = True"

fun held_vowel_ok :: "lexer \<Rightarrow> bool" where
  "held_vowel_ok (MaybeDiphthong first) = (first \<in> set ''eiyaouw'')"
| "held_vowel_ok l = True"

subsection \<open>Error messages\<close>

text \<open>
  The messages of the error phonemes of a stream, in order, and the messages on the
  slot a state of the aligner holds open.
\<close>

fun error_messages :: "phoneme list \<Rightarrow> string list" where
  "error_messages [] = []"
| "error_messages (Error e # ps) = e # error_messages ps"
| "error_messages (p # ps) = error_messages ps"

definition pending_errors :: "aligner \<Rightarrow> string list" where
  "pending_errors a = (case open_slot a of None \<Rightarrow> [] | Some t \<Rightarrow> slot_errors t)"

subsection \<open>Merges of the embellisher\<close>

text \<open>
  The two tests of \<^verbatim>\<open>embelish\<close> for a combined name, at a glyph and the next:
  the same vowel on the facing sides, and the combined name in \<^verbatim>\<open>vowelGlyphs\<close>.
\<close>

definition merge_east :: "slot \<Rightarrow> slot \<Rightarrow> bool" where
  "merge_east g n =
     (case east g of None \<Rightarrow> False
      | Some v \<Rightarrow> west n = Some v
          \<and> v # ''-east-'' @ io_right g @ ''-'' @ io_left n \<in> set vowelGlyphs)"

definition merge_south :: "slot \<Rightarrow> slot \<Rightarrow> bool" where
  "merge_south g n =
     (case south g of None \<Rightarrow> False
      | Some v \<Rightarrow> north n = Some v
          \<and> v # ''-south-'' @ io_right g @ ''-'' @ io_left n \<in> set vowelGlyphs)"

text \<open>Some glyph of the sequence passes one of the tests with its successor.\<close>

fun resolvable_merge :: "slot list \<Rightarrow> bool" where
  "resolvable_merge (g # n # rest) =
     (merge_east g n \<or> merge_south g n \<or> resolvable_merge (n # rest))"
| "resolvable_merge gs = False"

text \<open>The \<^verbatim>\<open>filter\<close> and the first \<^verbatim>\<open>map\<close> of \<^verbatim>\<open>embelish\<close>.\<close>

definition prepare :: "slot list \<Rightarrow> slot list" where
  "prepare glyphs = map add_features (filter (\<lambda>g. \<not> is_empty g) glyphs)"

text \<open>Several keys set in a row.\<close>

definition add_keys :: "string list \<Rightarrow> slot \<Rightarrow> slot" where
  "add_keys names g = foldl (\<lambda>h name. set_key name h) g names"

text \<open>
  The names \<^verbatim>\<open>embelish\<close> gives the attachments of a glyph when it combines none
  with the next glyph.
\<close>

definition simple_names :: "slot \<Rightarrow> string list" where
  "simple_names g =
     (case west g of None \<Rightarrow> [] | Some v \<Rightarrow> [v # ''-west-'' @ io_left g])
     @ (case north g of None \<Rightarrow> [] | Some v \<Rightarrow> [v # ''-north-'' @ io_left g])
     @ (case east g of None \<Rightarrow> [] | Some v \<Rightarrow> [v # ''-east-'' @ io_right g])
     @ (case south g of None \<Rightarrow> [] | Some v \<Rightarrow> [v # ''-south-'' @ io_right g])"

text \<open>
  The characters some \<^verbatim>\<open>case\<close> of the lexer names: the blanks, the letters, and
  \<^verbatim>\<open>h\<close>, which only the closures after another letter name, and the tab, which
  only \<^verbatim>\<open>space\<close> names. Every other character matches no rule in any state.
\<close>

definition lexer_alphabet :: string where
  "lexer_alphabet = [CHR 0x0A, CHR 0x0D, CHR 0x09] @ '' xqwyeiaourlmvfjzgkcnbptdsh''"

text \<open>The message \<^verbatim>\<open>'unexpected ' + first\<close>.\<close>

definition unexpected :: "char \<Rightarrow> string" where
  "unexpected c = ''unexpected '' @ [c]"

text \<open>The messages of the error phonemes one call of the lexer emits.\<close>

definition step_errors :: "lexer \<Rightarrow> char option \<Rightarrow> string list" where
  "step_errors l c = error_messages (somes (fst (lex_step l c)))"

text \<open>
  The messages about \<^verbatim>\<open>h\<close> and the tab, which are unexpected in some states of
  the lexer and consumed in others.
\<close>

definition in_context :: "string \<Rightarrow> bool" where
  "in_context m = (m = unexpected CHR ''h'' \<or> m = unexpected CHR 0x09)"

text \<open>The closures that name \<^verbatim>\<open>h\<close> as their next letter.\<close>

fun takes_h :: "lexer \<Rightarrow> bool" where
  "takes_h (SecondGK first) = True"
| "takes_h SecondC = True"
| "takes_h SecondB = True"
| "takes_h SecondP = True"
| "takes_h SecondT = True"
| "takes_h SecondD = True"
| "takes_h ThirdSC = True"
| "takes_h l = False"

section \<open>The machine as a pipeline\<close>

text \<open>
  The lexer emits phonemes and then one \<^verbatim>\<open>null\<close>; the aligner emits slots and
  then one \<^verbatim>\<open>null\<close>; so the callback of \<^verbatim>\<open>makeParser\<close> runs, once, and
  \<^const>\<open>parse\<close> returns the slots the aligner emitted.
\<close>

lemma somes_append: "somes (xs @ ys) = somes xs @ somes ys"
  by (induction xs rule: somes.induct) simp_all

lemma somes_map_Some: "somes (map Some xs) = xs"
  by (induction xs) simp_all

lemma no_None_map_Some: "None \<notin> set xs \<Longrightarrow> map Some (somes xs) = xs"
  by (induction xs rule: somes.induct) simp_all

lemma lex_step_Some_aux:
  "c \<noteq> None \<Longrightarrow> None \<notin> set (fst (lex_step l c))"
  by (induction l c rule: lex_step.induct)
     (auto simp: emit_then_def Let_def split: if_splits)

lemma lex_step_None_aux:
  "c = None \<Longrightarrow> fst (lex_step l c) \<noteq> [] \<and> last (fst (lex_step l c)) = None
     \<and> None \<notin> set (butlast (fst (lex_step l c)))"
  by (induction l c rule: lex_step.induct)
     (auto simp: emit_then_def Let_def butlast_append split: if_splits)

lemma ends_with_None:
  assumes "xs \<noteq> []" "last xs = None" "None \<notin> set (butlast xs)"
  shows "xs = map Some (somes xs) @ [None]"
proof -
  have "xs = butlast xs @ [None]" using assms by (metis append_butlast_last_id)
  moreover have "map Some (somes (butlast xs)) = butlast xs"
    using assms by (simp add: no_None_map_Some)
  ultimately show ?thesis by (metis somes_append somes.simps(1,2) append_Nil2)
qed

lemma lex_step_Some: "None \<notin> set (fst (lex_step l (Some c)))"
  by (simp add: lex_step_Some_aux)

lemma lex_step_None: "fst (lex_step l None) = map Some (somes (fst (lex_step l None))) @ [None]"
  using lex_step_None_aux[of None l] by (intro ends_with_None) simp_all

lemma lex_run_Some: "None \<notin> set (fst (lex_run l (map Some cs)))"
proof (induction cs arbitrary: l)
  case Nil
  show ?case by simp
next
  case (Cons c cs)
  obtain out l' where s: "lex_step l (Some c) = (out, l')" by force
  have "None \<notin> set out" using lex_step_Some[of l c] s by simp
  with Cons[of l'] s show ?case by (simp add: emit_then_def)
qed

lemma lex_run_append:
  "lex_run l (cs @ ds) = (case lex_run l cs of (out, l') \<Rightarrow> emit_then out (lex_run l' ds))"
  by (induction cs arbitrary: l) (auto simp: emit_then_def split: prod.splits)

lemma lex_shape: "lex text = map Some (phonemes text) @ [None]"
proof -
  obtain out l where r: "lex_run FavorConsonant (map Some text) = (out, l)" by force
  have nn: "None \<notin> set out" using lex_run_Some [of FavorConsonant "text"] r by simp
  have "lex text = out @ fst (lex_step l None)"
    by (simp add: lex_def terminated_def lex_run_append r emit_then_def split: prod.splits)
  also have "\<dots> = map Some (somes out) @ map Some (somes (fst (lex_step l None))) @ [None]"
    using nn lex_step_None[of l] by (simp add: no_None_map_Some)
  finally have e: "lex text = map Some (somes out @ somes (fst (lex_step l None))) @ [None]" by simp
  then have "phonemes text = somes out @ somes (fst (lex_step l None))"
    by (simp add: phonemes_def somes_append somes_map_Some)
  with e show ?thesis by simp
qed

lemma align_step_Some:
  "a \<noteq> AlignerEnd \<Longrightarrow> snd (align_step a (Some p)) \<noteq> AlignerEnd
     \<and> None \<notin> set (fst (align_step a (Some p)))"
  by (cases a; cases p) simp_all

lemma align_step_None:
  "a \<noteq> AlignerEnd \<Longrightarrow> align_step a None = ([open_slot a, None], AlignerEnd)"
  by (cases a) simp_all

lemma align_run_append:
  "align_run a (ps @ qs) =
     (case align_run a ps of (out, a') \<Rightarrow>
        (case align_run a' qs of (outs, a'') \<Rightarrow> (out @ outs, a'')))"
  by (induction ps arbitrary: a) (auto split: prod.splits)

lemma align_run_Some:
  "a \<noteq> AlignerEnd \<Longrightarrow> snd (align_run a (map Some ps)) \<noteq> AlignerEnd
     \<and> None \<notin> set (fst (align_run a (map Some ps)))"
proof (induction ps arbitrary: a)
  case Nil
  then show ?case by simp
next
  case (Cons p ps)
  obtain out a' where s: "align_step a (Some p) = (out, a')" by force
  have "a' \<noteq> AlignerEnd \<and> None \<notin> set out"
    using align_step_Some[OF Cons.prems, of p] s by simp
  with Cons.IH[of a'] s show ?case by (auto split: prod.splits)
qed

lemma align_run_shape:
  assumes "a \<noteq> AlignerEnd"
  shows "fst (align_run a (map Some ps @ [None])) =
           map Some (somes (fst (align_run a (map Some ps @ [None])))) @ [None]"
proof -
  obtain out a' where r: "align_run a (map Some ps) = (out, a')" by force
  have a': "a' \<noteq> AlignerEnd" and out: "None \<notin> set out"
    using align_run_Some[OF assms, of ps] r by simp_all
  obtain t where t: "open_slot a' = Some t" using a' by (cases a') simp_all
  have "fst (align_run a (map Some ps @ [None])) = out @ [Some t, None]"
    by (simp add: align_run_append r align_step_None[OF a'] t)
  moreover have "map Some (somes out) = out" using out by (rule no_None_map_Some)
  ultimately show ?thesis by (simp add: somes_append)
qed

lemma align_shape: "align text = map Some (somes (align text)) @ [None]"
  unfolding align_def aligner_start_def
  by (subst (1 2) lex_shape) (rule align_run_shape, simp)

lemma foldl_emit_phoneme:
  "foldl emit_phoneme (a, k) ps =
     (snd (align_run a ps), foldl collect k (fst (align_run a ps)))"
  by (induction ps arbitrary: a k) (auto simp: emit_phoneme_def split: prod.splits)

lemma foldl_feed:
  "foldl feed m cs =
     (let ps = fst (lex_run (lexer_state m) cs);
          ss = fst (align_run (aligner_state m) ps);
          kr = foldl collect (collector_state m, result m) ss
      in \<lparr>lexer_state = snd (lex_run (lexer_state m) cs),
          aligner_state = snd (align_run (aligner_state m) ps),
          collector_state = fst kr, result = snd kr\<rparr>)"
proof (induction cs arbitrary: m)
  case Nil
  show ?case by simp
next
  case (Cons c cs)
  obtain out l where l: "lex_step (lexer_state m) c = (out, l)" by force
  have f: "feed m c =
      \<lparr>lexer_state = l, aligner_state = snd (align_run (aligner_state m) out),
       collector_state = fst (foldl collect (collector_state m, result m)
                                (fst (align_run (aligner_state m) out))),
       result = snd (foldl collect (collector_state m, result m)
                       (fst (align_run (aligner_state m) out)))\<rparr>"
    by (simp add: feed_def l foldl_emit_phoneme split: prod.splits)
  show ?case
    unfolding foldl_Cons Cons.IH f
    by (simp add: l emit_then_def align_run_append Let_def split: prod.splits)
qed

lemma run_streams:
  "run text =
     (let kr = foldl collect (Collector [], []) (align text)
      in \<lparr>lexer_state = snd (lex_run FavorConsonant (terminated text)),
          aligner_state = snd (align_run aligner_start (lex text)),
          collector_state = fst kr, result = snd kr\<rparr>)"
proof -
  have "run text = foldl feed start (terminated text)"
    by (simp add: run_def terminated_def)
  then show ?thesis
    by (simp add: foldl_feed start_def lex_def align_def Let_def)
qed

lemma collect_slots:
  "foldl collect (Collector h, r) (map Some ss) = (Collector (h @ ss), r)"
  by (induction ss arbitrary: h) simp_all

lemma run_finished: "collector_state (run text) = Eof"
  by (subst run_streams, subst align_shape) (simp add: collect_slots Let_def)

lemma parse_slots: "parse text = somes (align text)"
  unfolding parse_def
  by (subst run_streams, subst align_shape) (simp add: collect_slots Let_def)


section \<open>Size of the model\<close>

lemma foldl_max_Max:
  fixes f :: "'a \<Rightarrow> int"
  shows "foldl (\<lambda>m g. max (f g) m) a gs = Max (insert a (f ` set gs))"
proof (induction gs arbitrary: a)
  case Nil
  show ?case by simp
next
  case (Cons g gs)
  have "Max (insert (max (f g) a) (f ` set gs)) = Max (insert a (insert (f g) (f ` set gs)))"
  proof (cases "set gs = {}")
    case True
    then show ?thesis by (simp add: max.commute)
  next
    case False
    then show ?thesis by (simp add: max.assoc max.left_commute max.commute)
  qed
  with Cons show ?case by simp
qed

text \<open>
  C1. In every model that \<^const>\<open>transcribe\<close> returns, \<^verbatim>\<open>size.x\<close> is the greatest
  of 1 and the \<^verbatim>\<open>x + 1\<close> of the returned glyphs, and \<^verbatim>\<open>size.y\<close> the greatest
  of 1 and their \<^verbatim>\<open>y + 1\<close>.
\<close>

theorem transcribe_size:
  "size_x (model_size (transcribe text)) =
     Max (insert 1 ((\<lambda>g. slot_x g + 1) ` set (model_glyphs (transcribe text))))
   \<and> size_y (model_size (transcribe text)) =
     Max (insert 1 ((\<lambda>g. slot_y g + 1) ` set (model_glyphs (transcribe text))))"
  by (simp add: transcribe_def measure_glyphs_def Let_def foldl_max_Max)

section \<open>Coordinates stay on the grid\<close>

lemma spread_coords [simp]: "slot_x (spread t c) = slot_x t" "slot_y (spread t c) = slot_y t"
  by (simp_all add: spread_def)

lemma appendError_coords [simp]:
  "slot_x (appendError t e) = slot_x t" "slot_y (appendError t e) = slot_y t"
  by (simp_all add: appendError_def)

lemma new_slot_coords [simp]: "slot_x (new_slot a b e) = a" "slot_y (new_slot a b e) = b"
  by (simp_all add: new_slot_def)

lemma align_step_rows:
  assumes "rows_ok a"
  shows "rows_ok (snd (align_step a p)) \<and> list_all coords_ok (somes (fst (align_step a p)))"
proof (cases p)
  case None
  with assms show ?thesis by (cases a) (simp_all add: coords_ok_def)
next
  case (Some ph)
  with assms show ?thesis by (cases a; cases ph) (simp_all add: coords_ok_def)
qed

lemma align_run_rows:
  "rows_ok a \<Longrightarrow> rows_ok (snd (align_run a ps)) \<and> list_all coords_ok (somes (fst (align_run a ps)))"
proof (induction ps arbitrary: a)
  case Nil
  then show ?case by simp
next
  case (Cons p ps)
  obtain out a' where s: "align_step a p = (out, a')" by force
  have "rows_ok a' \<and> list_all coords_ok (somes out)"
    using align_step_rows[OF Cons.prems, of p] s by simp
  with Cons.IH[of a'] s show ?case by (auto simp: somes_append split: prod.splits)
qed

lemma set_key_coords [simp]: "slot_x (set_key n g) = slot_x g" "slot_y (set_key n g) = slot_y g"
  by (simp_all add: set_key_def)

lemma add_features_coords [simp]:
  "slot_x (add_features g) = slot_x g" "slot_y (add_features g) = slot_y g"
proof -
  have "slot_x (foldl (\<lambda>h name. set_key name h) g ns) = slot_x g
      \<and> slot_y (foldl (\<lambda>h name. set_key name h) g ns) = slot_y g" for ns
    by (induction ns arbitrary: g) simp_all
  then show "slot_x (add_features g) = slot_x g" "slot_y (add_features g) = slot_y g"
    by (simp_all add: add_features_def)
qed

lemma embelish_glyph_coords:
  "coords_ok (fst (embelish_glyph g nx)) = coords_ok g"
  "snd (embelish_glyph g (Some n)) = Some m \<Longrightarrow> coords_ok m = coords_ok n"
  "snd (embelish_glyph g (Some n)) \<noteq> None"
  by (auto simp: embelish_glyph_def coords_ok_def Let_def split: option.splits if_splits)

lemma embelish_pass_coords:
  "list_all coords_ok gs \<Longrightarrow> list_all coords_ok (embelish_pass gs)"
proof (induction gs rule: embelish_pass.induct)
  case 1
  show ?case by simp
next
  case (2 g)
  then show ?case by (simp add: embelish_glyph_coords)
next
  case (3 g n rest)
  obtain g' n' where e: "embelish_glyph g (Some n) = (g', n')" by force
  obtain m where m: "n' = Some m" using embelish_glyph_coords(3)[of g n] e by auto
  have "coords_ok g'" using embelish_glyph_coords(1)[of g "Some n"] e 3 by simp
  moreover have "coords_ok m" using embelish_glyph_coords(2)[of g n m] e m 3 by simp
  ultimately show ?case using 3 e m by simp
qed

lemma embelish_coords: "list_all coords_ok gs \<Longrightarrow> list_all coords_ok (embelish gs)"
  unfolding embelish_def
  by (rule embelish_pass_coords) (induction gs, simp_all add: coords_ok_def)

text \<open>
  C10. For every input, every slot the aligner emits, and so every glyph of the
  returned model, has \<^verbatim>\<open>x >= 0\<close> and \<^verbatim>\<open>y >= 0\<close>; and whatever state
  the aligner has reached, a low state stands on a row \<^verbatim>\<open>y >= 1\<close>, so its
  \<^verbatim>\<open>y - 1\<close> is not negative.
\<close>

theorem coordinates_nonnegative:
  "list_all coords_ok (parse text)
   \<and> list_all coords_ok (model_glyphs (transcribe text))
   \<and> rows_ok (aligner_state (foldl feed start (map Some text)))"
proof -
  have s: "rows_ok aligner_start" by (simp add: aligner_start_def)
  have p: "list_all coords_ok (parse text)"
    using align_run_rows[OF s, of "lex text"] by (simp add: parse_slots align_def)
  have "rows_ok (aligner_state (foldl feed start (map Some text)))"
    using align_run_rows[OF s] by (simp add: foldl_feed start_def Let_def)
  with p embelish_coords[OF p] show ?thesis by (simp add: transcribe_def Let_def)
qed

section \<open>Transitions of the aligner\<close>

lemma after_mab:
  "aligner_after ''mab'' =
     Low (new_slot 0 1 True) (north_connector CHR ''a'') (center_connector ''m'')"
  by code_simp

lemma after_m:
  "aligner_after ''m'' =
     AfterHigh ((new_slot 0 0 False)\<lparr>center := Some ''m''\<rparr>)
       (south_connector CHR ''e'') (north_connector CHR ''e'')"
  by code_simp

text \<open>
  C7. In each of the five states, a newline leaves the aligner before a high hub
  with an empty open slot whose column \<^verbatim>\<open>x\<close> is 0 and whose row \<^verbatim>\<open>y\<close> is the
  row of the slot that was open plus 2, or plus 1 when the state was a low one.
\<close>

theorem newline_resets_column:
  assumes "open_slot st = Some t"
  shows "\<exists>t'. snd (align_step st (Some Newline)) = BeforeHigh t'
           \<and> slot_x t' = 0
           \<and> slot_y t' = slot_y t + (if is_low st then 1 else 2)
           \<and> is_empty t' \<and> center t' = None \<and> north t' = None \<and> south t' = None
           \<and> east t' = None \<and> west t' = None \<and> errors t' = None"
  using assms by (cases st) (simp_all add: new_slot_def split: if_splits)

theorem newline_resets_column_witness:
  "open_slot (aligner_after ''mab'') = Some (new_slot 0 1 True)
   \<and> slot_y (new_slot 0 1 True) = 1
   \<and> is_low (aligner_after ''mab'')
   \<and> (\<exists>t'. snd (align_step (aligner_after ''mab'') (Some Newline)) = BeforeHigh t'
          \<and> slot_x t' = 0 \<and> slot_y t' = 2 \<and> is_empty t')
   \<and> map slot_x (parse (''ma'' @ [CHR 0x0A] @ ''m'')) = [0, 0, 0]
   \<and> map slot_y (parse (''ma'' @ [CHR 0x0A] @ ''m'')) = [0, 1, 2]
   \<and> map slot_y (parse (''m'' @ [CHR 0x0A] @ ''m'')) = [0, 2]"
proof -
  have p: "map slot_x (parse (''ma'' @ [CHR 0x0A] @ ''m'')) = [0, 0, 0]
   \<and> map slot_y (parse (''ma'' @ [CHR 0x0A] @ ''m'')) = [0, 1, 2]
   \<and> map slot_y (parse (''m'' @ [CHR 0x0A] @ ''m'')) = [0, 2]"
    by code_simp
  have o: "open_slot (aligner_after ''mab'') = Some (new_slot 0 1 True)"
    by (simp add: after_mab)
  show ?thesis
    using newline_resets_column[OF o] p
    by (simp add: after_mab new_slot_def)
qed

text \<open>
  C5. Two consonants in a row, from any state: the second closes the hub of the
  first, which then carries the placeholder \<^verbatim>\<open>e\<close> on the side of the gap, and
  opens its own hub with \<^verbatim>\<open>e\<close> on the facing side. For a high first hub these
  are its south and the north of the second hub, one row down; for a low first hub
  its east and the west of the second, one column right and one row up.
\<close>

theorem consonant_pair_placeholder:
  assumes "st \<noteq> AlignerEnd"
  shows "\<exists>hub t2.
           fst (align_step (snd (align_step st (Some (Consonant c1)))) (Some (Consonant c2)))
             = [Some hub]
         \<and> open_slot (snd (align_step (snd (align_step st (Some (Consonant c1))))
                              (Some (Consonant c2)))) = Some t2
         \<and> center hub = Some c1 \<and> center t2 = Some c2
         \<and> (if is_low (snd (align_step st (Some (Consonant c1))))
            then east hub = Some CHR ''e'' \<and> west t2 = Some CHR ''e''
                 \<and> slot_x t2 = slot_x hub + 1 \<and> slot_y t2 = slot_y hub - 1
            else south hub = Some CHR ''e'' \<and> north t2 = Some CHR ''e''
                 \<and> slot_x t2 = slot_x hub \<and> slot_y t2 = slot_y hub + 1)"
  using assms
  by (cases st)
     (simp_all add: spread_def override_def new_slot_def south_connector_def
        north_connector_def east_connector_def west_connector_def no_connector_def)

lemma parse_mn:
  "parse ''mn'' =
     [(new_slot 0 0 False)\<lparr>center := Some ''m'', south := Some CHR ''e''\<rparr>,
      (new_slot 0 1 False)\<lparr>center := Some ''n'', north := Some CHR ''e''\<rparr>]"
  by code_simp

theorem consonant_pair_placeholder_witness:
  "aligner_after [] \<noteq> AlignerEnd
   \<and> \<not> is_low (snd (align_step (aligner_after []) (Some (Consonant ''m''))))
   \<and> (\<exists>hub t2.
        fst (align_step (snd (align_step (aligner_after []) (Some (Consonant ''m''))))
               (Some (Consonant ''n''))) = [Some hub]
      \<and> open_slot (snd (align_step (snd (align_step (aligner_after []) (Some (Consonant ''m''))))
                             (Some (Consonant ''n'')))) = Some t2
      \<and> center hub = Some ''m'' \<and> center t2 = Some ''n''
      \<and> south hub = Some CHR ''e'' \<and> north t2 = Some CHR ''e'')
   \<and> map south (parse ''mn'') = [Some CHR ''e'', None]
   \<and> map north (parse ''mn'') = [None, Some CHR ''e'']"
proof -
  have s: "aligner_after [] = BeforeHigh (new_slot 0 0 True)" by code_simp
  have n: "aligner_after [] \<noteq> AlignerEnd" by (simp add: s)
  show ?thesis
    using consonant_pair_placeholder[OF n, of "''m''" "''n''"]
    by (simp add: s parse_mn new_slot_def)
qed

text \<open>
  C6 as stated fails in \<^const>\<open>AfterHigh\<close>: after \<^verbatim>\<open>m\<close> the open hub has neither
  a west nor a north attachment, and a space still moves to the next column.
\<close>

theorem space_advance_counterexample:
  "aligner_after ''m'' =
     AfterHigh ((new_slot 0 0 False)\<lparr>center := Some ''m''\<rparr>)
       (south_connector CHR ''e'') (north_connector CHR ''e'')
   \<and> west ((new_slot 0 0 False)\<lparr>center := Some ''m''\<rparr>) = None
   \<and> north ((new_slot 0 0 False)\<lparr>center := Some ''m''\<rparr>) = None
   \<and> aligner_after ''m '' = BeforeHigh (new_slot 1 0 True)
   \<and> column_advance (aligner_after ''m'') (snd (align_step (aligner_after ''m'') (Some Space)))"
proof -
  have "aligner_after ''m '' = BeforeHigh (new_slot 1 0 True)" by code_simp
  then show ?thesis
    by (simp add: after_m column_advance_def new_slot_def)
qed

text \<open>
  C6, amended. In \<^const>\<open>High\<close> a space advances one column, closing the hub on the
  placeholder \<^verbatim>\<open>m\<close>, exactly when the open slot has a west or north attachment,
  and otherwise drops the connectors and stays. In \<^const>\<open>BeforeHigh\<close> a space changes
  nothing; in \<^const>\<open>AfterHigh\<close> and \<^const>\<open>AfterLow\<close> it always closes the slot and
  advances one column; in \<^const>\<open>Low\<close> it drops the connectors and keeps the slot.
\<close>

theorem space_column_advance:
  "(column_advance (High t vc cc) (snd (align_step (High t vc cc) (Some Space)))
      = (west t \<noteq> None \<or> north t \<noteq> None))
   \<and> align_step (High t vc cc) (Some Space) =
       (if west t \<noteq> None \<or> north t \<noteq> None
        then ([Some (t\<lparr>is_empty := False, center := Some ''m''\<rparr>)],
              BeforeHigh (new_slot (slot_x t + 1) (slot_y t) True))
        else ([], BeforeHigh t))
   \<and> align_step (BeforeHigh t) (Some Space) = ([], BeforeHigh t)
   \<and> \<not> column_advance (BeforeHigh t) (snd (align_step (BeforeHigh t) (Some Space)))
   \<and> align_step (AfterHigh t vc cc) (Some Space) =
       ([Some t], BeforeHigh (new_slot (slot_x t + 1) (slot_y t) True))
   \<and> column_advance (AfterHigh t vc cc) (snd (align_step (AfterHigh t vc cc) (Some Space)))
   \<and> align_step (Low t vc cc) (Some Space) = ([], AfterLow t no_connector no_connector)
   \<and> \<not> column_advance (Low t vc cc) (snd (align_step (Low t vc cc) (Some Space)))
   \<and> align_step (AfterLow t vc cc) (Some Space) =
       ([Some t], High (new_slot (slot_x t + 1) (slot_y t - 1) True) no_connector no_connector)
   \<and> column_advance (AfterLow t vc cc) (snd (align_step (AfterLow t vc cc) (Some Space)))"
  by (simp add: column_advance_def)


lemma after_ab:
  "aligner_after ''ab'' =
     High ((new_slot 0 0 False)\<lparr>north := Some CHR ''a''\<rparr>) no_connector (center_connector ''m'')"
  by code_simp

lemma after_mamab:
  "aligner_after ''mamab'' =
     High (new_slot 1 0 True) (west_connector CHR ''a'') (center_connector ''m'')"
  by code_simp

theorem space_column_advance_witness:
  "column_advance (aligner_after ''ab'') (snd (align_step (aligner_after ''ab'') (Some Space)))
   \<and> align_step (aligner_after ''mamab'') (Some Space) = ([], BeforeHigh (new_slot 1 0 True))"
  using space_column_advance
          [of "(new_slot 0 0 False)\<lparr>north := Some CHR ''a''\<rparr>" no_connector
              "center_connector ''m''"]
        space_column_advance
          [of "new_slot 1 0 True" "west_connector CHR ''a''" "center_connector ''m''"]
  by (simp add: after_ab after_mamab new_slot_def)

section \<open>Phonemes of the lexer\<close>

text \<open>
  C4 as stated fails on \<^verbatim>\<open>qu\<close>: the \<^verbatim>\<open>w\<close> that \<^verbatim>\<open>q\<close> stands for is read by
  \<^verbatim>\<open>favorVowel\<close>, after the \<^verbatim>\<open>k\<close>, and comes out as a vowel.
\<close>

theorem digraph_qu_counterexample:
  "phonemes ''qu'' = [Consonant ''k'', Vowel CHR ''w'']
   \<and> phonemes ''qu'' \<noteq> [Consonant ''k'', Consonant ''w'']"
proof -
  have "phonemes ''qu'' = [Consonant ''k'', Vowel CHR ''w'']" by code_simp
  then show ?thesis by simp
qed

text \<open>
  C4, amended. \<^verbatim>\<open>ph\<close> is the one consonant \<^verbatim>\<open>f\<close> and \<^verbatim>\<open>sch\<close> the one consonant
  \<^verbatim>\<open>sh\<close>; \<^verbatim>\<open>qu\<close> is the consonant \<^verbatim>\<open>k\<close> and then the vowel \<^verbatim>\<open>w\<close>, which
  the lexer holds as the head of a possible diphthong when the \<^verbatim>\<open>u\<close> has been
  read; the \<^verbatim>\<open>u\<close> gives no phoneme.
\<close>

theorem digraph_precedence:
  "phonemes ''ph'' = [Consonant ''f'']
   \<and> phonemes ''sch'' = [Consonant ''sh'']
   \<and> phonemes ''qu'' = [Consonant ''k'', Vowel CHR ''w'']
   \<and> lex_run FavorConsonant (map Some ''qu'') = ([Some (Consonant ''k'')], MaybeDiphthong CHR ''w'')"
  by code_simp

text \<open>
  C9 as stated fails after a consonant, where \<^verbatim>\<open>w\<close> is a vowel.
\<close>

theorem vowel_symbol_counterexample:
  "phonemes ''mw'' = [Consonant ''m'', Vowel CHR ''w''] \<and> CHR ''w'' \<notin> set ''eiyaou''"
proof -
  have "phonemes ''mw'' = [Consonant ''m'', Vowel CHR ''w'']" by code_simp
  then show ?thesis by simp
qed

lemma lex_step_vowels:
  "held_vowel_ok l \<Longrightarrow>
     held_vowel_ok (snd (lex_step l c)) \<and> list_all vowel_symbols_ok (somes (fst (lex_step l c)))"
  by (induction l c rule: lex_step.induct)
     (auto simp: emit_then_def Let_def somes_append split: if_splits)

lemma lex_run_vowels:
  "held_vowel_ok l \<Longrightarrow>
     held_vowel_ok (snd (lex_run l cs)) \<and> list_all vowel_symbols_ok (somes (fst (lex_run l cs)))"
proof (induction cs arbitrary: l)
  case Nil
  then show ?case by simp
next
  case (Cons c cs)
  obtain out l' where s: "lex_step l c = (out, l')" by force
  have "held_vowel_ok l' \<and> list_all vowel_symbols_ok (somes out)"
    using lex_step_vowels[OF Cons.prems, of c] s by simp
  with Cons.IH[of l'] s show ?case by (simp add: emit_then_def somes_append)
qed

text \<open>
  C9, amended. For every input, the symbol of every vowel the lexer emits, and
  each of the two symbols of every diphthong, is one of
  \<^verbatim>\<open>e\<close>, \<^verbatim>\<open>i\<close>, \<^verbatim>\<open>y\<close>, \<^verbatim>\<open>a\<close>, \<^verbatim>\<open>o\<close>, \<^verbatim>\<open>u\<close>, \<^verbatim>\<open>w\<close>.
\<close>

theorem vowel_symbols:
  "list_all vowel_symbols_ok (phonemes text)"
  using lex_run_vowels[of FavorConsonant "terminated text"]
  by (simp add: phonemes_def lex_def)

section \<open>A bare vowel\<close>

text \<open>
  C2 as stated fails on \<^verbatim>\<open>a\<close>: the one glyph returned has no center and no
  stroke of the consonant \<^verbatim>\<open>m\<close>, whose feature is \<^verbatim>\<open>labial\<close>.
\<close>

theorem bare_vowel_counterexample:
  "map center (model_glyphs (transcribe ''a'')) = [None]
   \<and> map strokes (model_glyphs (transcribe ''a'')) = [[''a-north-inner'']]
   \<and> features ((new_slot 0 0 False)\<lparr>center := Some ''m''\<rparr>) = [''labial'']"
  by code_simp

lemma bare_vowel_all:
  "\<forall>v \<in> set ''eiaou''.
     model_glyphs (transcribe [v]) =
       [(new_slot 0 0 False)\<lparr>north := Some v, strokes := [v # ''-north-inner'']\<rparr>]
   \<and> model_glyphs (transcribe [v, CHR '' '']) =
       [(new_slot 0 0 False)\<lparr>center := Some ''m'', north := Some v,
          strokes := [''labial'', v # ''-north-inner'']\<rparr>]"
  by code_simp

text \<open>
  C2, amended. For a text of one vowel letter (\<^verbatim>\<open>e\<close>, \<^verbatim>\<open>i\<close>, \<^verbatim>\<open>a\<close>, \<^verbatim>\<open>o\<close>,
  \<^verbatim>\<open>u\<close>) the model has exactly one glyph, at the origin, with the vowel to the
  north, no center and the one stroke of that vowel. The placeholder \<^verbatim>\<open>m\<close> waits
  in a connector, which the end of input drops; a space after the vowel writes it,
  and then the glyph has the center \<^verbatim>\<open>m\<close> and its feature \<^verbatim>\<open>labial\<close>.
\<close>

theorem bare_vowel:
  assumes "v \<in> set ''eiaou''"
  shows "model_glyphs (transcribe [v]) =
           [(new_slot 0 0 False)\<lparr>north := Some v, strokes := [v # ''-north-inner'']\<rparr>]
       \<and> model_glyphs (transcribe [v, CHR '' '']) =
           [(new_slot 0 0 False)\<lparr>center := Some ''m'', north := Some v,
              strokes := [''labial'', v # ''-north-inner'']\<rparr>]"
  using assms bare_vowel_all by blast

theorem bare_vowel_witness:
  "CHR ''a'' \<in> set ''eiaou''
   \<and> model_glyphs (transcribe ''a'') =
       [(new_slot 0 0 False)\<lparr>north := Some CHR ''a'', strokes := [''a-north-inner'']\<rparr>]
   \<and> map center (model_glyphs (transcribe ''a '')) = [Some ''m'']
   \<and> map strokes (model_glyphs (transcribe ''a '')) = [[''labial'', ''a-north-inner'']]"
proof -
  have m: "CHR ''a'' \<in> set ''eiaou''" by simp
  show ?thesis using bare_vowel[OF m] by (simp add: new_slot_def)
qed

section \<open>Unexpected characters\<close>

text \<open>
  C3 as stated fails on \<^verbatim>\<open>1\<close>: the message is on the slot that was open, but
  that slot is still empty at the end, the embellisher drops it, and the returned
  model has no glyph and so no error list.
\<close>

theorem error_slot_counterexample:
  "phonemes ''1'' = [Error ''unexpected 1'']
   \<and> map slot_errors (parse ''1'') = [[''unexpected 1'']]
   \<and> model_glyphs (transcribe ''1'') = []"
  by code_simp

lemma spread_errors [simp]: "errors (spread t c) = errors t"
  by (simp add: spread_def)

lemma align_step_errors:
  assumes "a \<noteq> AlignerEnd"
  shows "concat (map slot_errors (somes (fst (align_step a (Some p)))))
           @ pending_errors (snd (align_step a (Some p)))
         = pending_errors a @ error_messages [p]"
  using assms
  by (cases a; cases p)
     (simp_all add: pending_errors_def slot_errors_def appendError_def new_slot_def
        split: option.splits)

lemma align_run_errors:
  assumes "a \<noteq> AlignerEnd"
  shows "concat (map slot_errors (somes (fst (align_run a (map Some ps @ [None])))))
         = pending_errors a @ error_messages ps"
  using assms
proof (induction ps arbitrary: a)
  case Nil
  then show ?case by (cases a) (simp_all add: pending_errors_def)
next
  case (Cons p ps)
  obtain out a' where s: "align_step a (Some p) = (out, a')" by force
  have a': "a' \<noteq> AlignerEnd" using align_step_Some[OF Cons.prems, of p] s by simp
  have e: "concat (map slot_errors (somes out)) @ pending_errors a'
             = pending_errors a @ error_messages [p]"
    using align_step_errors[OF Cons.prems, of p] s by simp
  have m: "error_messages (p # ps) = error_messages [p] @ error_messages ps"
    by (cases p) simp_all
  have "concat (map slot_errors (somes (fst (align_run a (map Some (p # ps) @ [None])))))
          = concat (map slot_errors (somes out)) @ pending_errors a' @ error_messages ps"
    using Cons.IH[OF a'] s by (simp add: somes_append case_prod_beta)
  also have "\<dots> = pending_errors a @ error_messages [p] @ error_messages ps"
    using e by (metis append.assoc)
  finally show ?case using m by simp
qed

lemma parse_errors: "concat (map slot_errors (parse text)) = error_messages (phonemes text)"
proof -
  have "aligner_start \<noteq> AlignerEnd" by (simp add: aligner_start_def)
  from align_run_errors[OF this, of "phonemes text"]
  show ?thesis
    by (simp add: parse_slots align_def lex_shape[symmetric] aligner_start_def
          pending_errors_def slot_errors_def new_slot_def)
qed

lemma set_key_errors [simp]: "errors (set_key n g) = errors g"
  by (simp add: set_key_def)

lemma add_features_errors [simp]: "errors (add_features g) = errors g"
proof -
  have "errors (foldl (\<lambda>h name. set_key name h) g ns) = errors g" for ns
    by (induction ns arbitrary: g) simp_all
  then show ?thesis by (simp add: add_features_def)
qed

lemma embelish_glyph_errors:
  "errors (fst (embelish_glyph g nx)) = errors g"
  "\<exists>m. snd (embelish_glyph g (Some n)) = Some m \<and> errors m = errors n"
  by (auto simp: embelish_glyph_def Let_def split: option.splits if_splits)

lemma embelish_pass_errors: "map errors (embelish_pass gs) = map errors gs"
proof (induction gs rule: embelish_pass.induct)
  case 1
  show ?case by simp
next
  case (2 g)
  show ?case by (simp add: embelish_glyph_errors)
next
  case (3 g n rest)
  obtain g' n' where e: "embelish_glyph g (Some n) = (g', n')" by force
  obtain m where m: "n' = Some m" "errors m = errors n"
    using embelish_glyph_errors(2)[of g n] e by auto
  have "errors g' = errors g" using embelish_glyph_errors(1)[of g "Some n"] e by simp
  with 3 e m show ?case by simp
qed

lemma slot_errors_map:
  "map slot_errors gs = map (\<lambda>es. case es of None \<Rightarrow> [] | Some es \<Rightarrow> es) (map errors gs)"
  by (simp add: slot_errors_def)

lemma embelish_errors:
  "map slot_errors (embelish gs) = map slot_errors (filter (\<lambda>g. \<not> is_empty g) gs)"
proof -
  have "map errors (embelish gs) = map errors (filter (\<lambda>g. \<not> is_empty g) gs)"
    by (simp add: embelish_def embelish_pass_errors comp_def)
  then show ?thesis by (simp only: slot_errors_map)
qed

lemma error_messages_append:
  "error_messages (ps @ qs) = error_messages ps @ error_messages qs"
  by (induction ps rule: error_messages.induct) simp_all

lemma step_errors_None: "ch = None \<Longrightarrow> step_errors l ch = []"
  unfolding step_errors_def
  by (induction l ch rule: lex_step.induct)
     (auto simp: emit_then_def Let_def somes_append error_messages_append split: if_splits)

lemma step_errors_Some:
  "ch = Some c \<Longrightarrow>
     (c \<notin> set lexer_alphabet \<longrightarrow> step_errors l ch = [unexpected c])
   \<and> (c \<in> set lexer_alphabet \<longrightarrow> c \<noteq> CHR ''h'' \<longrightarrow> c \<noteq> CHR 0x09 \<longrightarrow> step_errors l ch = [])
   \<and> (step_errors l ch = [] \<or> step_errors l ch = [unexpected c])"
  unfolding step_errors_def
  by (induction l ch arbitrary: c rule: lex_step.induct)
     (auto simp: emit_then_def Let_def somes_append error_messages_append lexer_alphabet_def
        unexpected_def split: if_splits)

lemma step_errors_filter:
  "filter (\<lambda>m. \<not> in_context m) (step_errors l (Some c))
     = (if c \<in> set lexer_alphabet then [] else [unexpected c])"
proof (cases "c \<in> set lexer_alphabet")
  case False
  then have "c \<noteq> CHR ''h''" "c \<noteq> CHR 0x09" by (auto simp: lexer_alphabet_def)
  then have "\<not> in_context (unexpected c)" by (simp add: in_context_def unexpected_def)
  with False step_errors_Some[of "Some c" c l] show ?thesis by simp
next
  case True
  show ?thesis
  proof (cases "c = CHR ''h'' \<or> c = CHR 0x09")
    case True
    then have "in_context (unexpected c)" by (auto simp: in_context_def)
    with \<open>c \<in> set lexer_alphabet\<close> step_errors_Some[of "Some c" c l] show ?thesis by auto
  next
    case False
    with True step_errors_Some[of "Some c" c l] show ?thesis by simp
  qed
qed

lemma lex_run_errors:
  "filter (\<lambda>m. \<not> in_context m)
     (error_messages (somes (fst (lex_run l (map Some cs @ [None])))))
   = map unexpected (filter (\<lambda>c. c \<notin> set lexer_alphabet) cs)"
proof (induction cs arbitrary: l)
  case Nil
  have "step_errors l None = []" by (simp add: step_errors_None)
  then show ?case by (simp add: step_errors_def emit_then_def split: prod.splits)
next
  case (Cons c cs)
  obtain out l' where s: "lex_step l (Some c) = (out, l')" by force
  have "filter (\<lambda>m. \<not> in_context m) (error_messages (somes out))
          = (if c \<in> set lexer_alphabet then [] else [unexpected c])"
    using step_errors_filter[of l c] s by (simp add: step_errors_def)
  with Cons[of l'] s show ?case
    by (simp add: emit_then_def somes_append error_messages_append)
qed

lemma lex_errors:
  "filter (\<lambda>m. \<not> in_context m) (error_messages (phonemes text))
     = map unexpected (filter (\<lambda>c. c \<notin> set lexer_alphabet) text)"
  using lex_run_errors[of FavorConsonant "text"]
  by (simp add: phonemes_def lex_def terminated_def)

lemma unexpected_recorded:
  assumes "c \<in> set text" "c \<notin> set lexer_alphabet"
  shows "\<exists>s \<in> set (parse text). unexpected c \<in> set (slot_errors s)"
proof -
  have "unexpected c \<in> set (map unexpected (filter (\<lambda>c. c \<notin> set lexer_alphabet) text))"
    using assms by simp
  then have "unexpected c \<in> set (filter (\<lambda>m. \<not> in_context m) (error_messages (phonemes text)))"
    by (simp only: lex_errors)
  then have "unexpected c \<in> set (concat (map slot_errors (parse text)))"
    by (simp add: parse_errors)
  then show ?thesis by auto
qed

lemma step_errors_h:
  "step_errors l (Some CHR ''h'') = (if takes_h l then [] else [unexpected CHR ''h''])"
  by (cases l) (simp_all add: step_errors_def emit_then_def unexpected_def)

lemma step_errors_tab:
  "step_errors l (Some (CHR 0x09)) = (if l = SpaceRun then [] else [unexpected (CHR 0x09)])"
  by (cases l) (simp_all add: step_errors_def emit_then_def unexpected_def)

text \<open>
  C3, amended. For every input the callback of the parser has run and
  \<^const>\<open>parse\<close> returns every slot the aligner emitted. A character that matches no
  rule of the lexer gives, in every state of the lexer, one error phoneme with the
  message \<^verbatim>\<open>unexpected\<close> and the character; over a text, these are the error
  phonemes of the lexer, in order, apart from those about an \<^verbatim>\<open>h\<close> or a tab out
  of place: an \<^verbatim>\<open>h\<close> gives the error phoneme in every state but the closures
  that take it as the second letter of a digraph, a tab in every state but
  \<^verbatim>\<open>space\<close>. An error phoneme emits nothing and appends its message to the slot that
  is open; the messages on the slots of \<^const>\<open>parse\<close>, in order, are the messages of
  the lexer's error phonemes, so a slot of \<^const>\<open>parse\<close> carries the message of every
  unexpected character of the text. The returned model keeps the error lists of the
  slots that are not empty and of no other slot.
\<close>

theorem error_resilience:
  "collector_state (run text) = Eof
   \<and> parse text = somes (align text)
   \<and> (c \<notin> set lexer_alphabet \<longrightarrow> step_errors l (Some c) = [unexpected c])
   \<and> step_errors l (Some CHR ''h'') = (if takes_h l then [] else [unexpected CHR ''h''])
   \<and> step_errors l (Some (CHR 0x09))
       = (if l = SpaceRun then [] else [unexpected (CHR 0x09)])
   \<and> filter (\<lambda>m. \<not> in_context m) (error_messages (phonemes text))
       = map unexpected (filter (\<lambda>c. c \<notin> set lexer_alphabet) text)
   \<and> fst (align_step st (Some (Error e))) = (if st = AlignerEnd then [None] else [])
   \<and> open_slot (snd (align_step st (Some (Error e))))
       = map_option (\<lambda>t. appendError t e) (open_slot st)
   \<and> concat (map slot_errors (parse text)) = error_messages (phonemes text)
   \<and> (\<forall>c \<in> set text. c \<notin> set lexer_alphabet \<longrightarrow>
         (\<exists>s \<in> set (parse text). unexpected c \<in> set (slot_errors s)))
   \<and> map slot_errors (model_glyphs (transcribe text))
       = map slot_errors (filter (\<lambda>s. \<not> is_empty s) (parse text))"
proof -
  have a: "fst (align_step st (Some (Error e))) = (if st = AlignerEnd then [None] else [])
      \<and> open_slot (snd (align_step st (Some (Error e))))
          = map_option (\<lambda>t. appendError t e) (open_slot st)"
    by (cases st) simp_all
  have l: "c \<notin> set lexer_alphabet \<longrightarrow> step_errors l (Some c) = [unexpected c]"
    using step_errors_Some[of "Some c" c l] by simp
  have m: "map slot_errors (model_glyphs (transcribe text))
       = map slot_errors (filter (\<lambda>s. \<not> is_empty s) (parse text))"
    by (simp add: embelish_errors transcribe_def Let_def)
  have p: "parse text = somes (align text)" by (rule parse_slots)
  from a l m p run_finished[of "text"] lex_errors[of "text"] parse_errors[of "text"]
    unexpected_recorded[of _ "text"] step_errors_h[of l] step_errors_tab[of l]
  show ?thesis by blast
qed

theorem error_resilience_witness:
  "CHR ''1'' \<in> set ''a1b'' \<and> CHR ''1'' \<notin> set lexer_alphabet
   \<and> step_errors (MaybeDiphthong CHR ''a'') (Some CHR ''1'') = [''unexpected 1'']
   \<and> (\<exists>s \<in> set (parse ''a1b''). ''unexpected 1'' \<in> set (slot_errors s))
   \<and> map slot_errors (model_glyphs (transcribe ''a1b'')) = [[''unexpected 1'']]"
proof -
  have i: "CHR ''1'' \<in> set ''a1b''" by simp
  have n: "CHR ''1'' \<notin> set lexer_alphabet" by (simp add: lexer_alphabet_def)
  have g: "map slot_errors (model_glyphs (transcribe ''a1b'')) = [[''unexpected 1'']]"
    by code_simp
  have u: "unexpected CHR ''1'' = ''unexpected 1''" by (simp add: unexpected_def)
  from error_resilience[of "''a1b''" "CHR ''1''" "MaybeDiphthong CHR ''a''"] i n
  have "step_errors (MaybeDiphthong CHR ''a'') (Some CHR ''1'') = [unexpected CHR ''1'']"
    and "\<exists>s \<in> set (parse ''a1b''). unexpected CHR ''1'' \<in> set (slot_errors s)"
    by blast+
  with i n g u show ?thesis by simp
qed

section \<open>Embellishing twice\<close>

text \<open>
  C8 as stated fails on the glyphs of \<^verbatim>\<open>mm\<close>. The first run names the south of the
  first hub \<^verbatim>\<open>e-south-inner-inner\<close> and deletes the north of the second, so its
  output has no empty slot and no merge left to resolve; the second run no longer
  sees the north and adds the simple name \<^verbatim>\<open>e-south-inner\<close>.
\<close>

theorem embelish_twice_counterexample:
  "map strokes (embelish (parse ''mm'')) = [[''labial'', ''e-south-inner-inner''], [''labial'']]
   \<and> filter is_empty (embelish (parse ''mm'')) = []
   \<and> \<not> resolvable_merge (embelish (parse ''mm''))
   \<and> map strokes (embelish (embelish (parse ''mm'')))
       = [[''labial'', ''e-south-inner-inner'', ''e-south-inner''], [''labial'']]"
  by code_simp

lemma set_key_fields [simp]:
  "is_empty (set_key k g) = is_empty g" "center (set_key k g) = center g"
  "north (set_key k g) = north g" "south (set_key k g) = south g"
  "east (set_key k g) = east g" "west (set_key k g) = west g"
  by (simp_all add: set_key_def)

lemma set_key_strokes: "set (strokes (set_key k g)) = insert k (set (strokes g))"
  by (auto simp: set_key_def)

lemma set_key_present: "k \<in> set (strokes g) \<Longrightarrow> set_key k g = g"
  by (simp add: set_key_def)

lemma add_keys_Nil [simp]: "add_keys [] g = g"
  by (simp add: add_keys_def)

lemma add_keys_Cons [simp]: "add_keys (k # ks) g = add_keys ks (set_key k g)"
  by (simp add: add_keys_def)

lemma add_keys_append: "add_keys (ks @ ls) g = add_keys ls (add_keys ks g)"
  by (simp add: add_keys_def)

lemma add_keys_fields [simp]:
  "is_empty (add_keys ks g) = is_empty g" "center (add_keys ks g) = center g"
  "north (add_keys ks g) = north g" "south (add_keys ks g) = south g"
  "east (add_keys ks g) = east g" "west (add_keys ks g) = west g"
  by (induction ks arbitrary: g; simp)+

lemma add_keys_strokes: "set (strokes (add_keys ks g)) = set (strokes g) \<union> set ks"
  by (induction ks arbitrary: g) (auto simp: set_key_strokes)

lemma add_keys_present: "set ks \<subseteq> set (strokes g) \<Longrightarrow> add_keys ks g = g"
  by (induction ks arbitrary: g) (simp_all add: set_key_present)

lemma add_features_keys: "add_features g = add_keys (features g) g"
  by (simp add: add_features_def add_keys_def)

lemma features_add_keys [simp]: "features (add_keys ks g) = features g"
  by (simp add: features_def)

lemma embelish_glyph_last: "embelish_glyph g None = (add_keys (simple_names g) g, None)"
  by (cases "west g"; cases "north g"; cases "east g"; cases "south g")
     (simp_all add: embelish_glyph_def simple_names_def Let_def)

lemma embelish_glyph_no_merge:
  assumes "\<not> merge_east g n" "\<not> merge_south g n"
  shows "embelish_glyph g (Some n) = (add_keys (simple_names g) g, Some n)"
  using assms
  by (cases "west g"; cases "north g"; cases "east g"; cases "south g")
     (simp_all only: embelish_glyph_def merge_east_def merge_south_def simple_names_def Let_def
        option.case set_key_fields fst_conv snd_conv if_False if_True simp_thms append.simps
        add_keys_Nil add_keys_Cons)

lemma embelish_pass_no_merge:
  "\<not> resolvable_merge gs \<Longrightarrow> embelish_pass gs = map (\<lambda>g. add_keys (simple_names g) g) gs"
  by (induction gs rule: embelish_pass.induct)
     (simp_all add: embelish_glyph_last embelish_glyph_no_merge)

lemma simple_names_not_io:
  "''dental'' \<notin> set (simple_names g)" "''palatal'' \<notin> set (simple_names g)"
  by (auto simp: simple_names_def io_left_def io_right_def split: option.splits)

lemma io_add_keys:
  "''dental'' \<notin> set ks \<Longrightarrow> io_left (add_keys ks g) = io_left g"
  "''palatal'' \<notin> set ks \<Longrightarrow> io_right (add_keys ks g) = io_right g"
  by (simp_all add: io_left_def io_right_def add_keys_strokes)

lemma io_simple [simp]:
  "io_left (add_keys (simple_names g) g) = io_left g"
  "io_right (add_keys (simple_names g) g) = io_right g"
  by (simp_all add: io_add_keys simple_names_not_io)

lemma simple_names_same:
  assumes "west h = west g" "north h = north g" "east h = east g" "south h = south g"
    "io_left h = io_left g" "io_right h = io_right g"
  shows "simple_names h = simple_names g"
  using assms by (simp add: simple_names_def split: option.splits)

lemma simple_names_simple [simp]:
  "simple_names (add_keys (simple_names g) g) = simple_names g"
  by (rule simple_names_same) simp_all

lemma simple_twice:
  "add_keys (simple_names g) (add_keys (simple_names g) g) = add_keys (simple_names g) g"
  by (rule add_keys_present) (simp add: add_keys_strokes)

lemma merge_same:
  assumes "io_right h = io_right g" "io_left m = io_left n"
  shows "east h = east g \<Longrightarrow> west m = west n \<Longrightarrow> merge_east h m = merge_east g n"
    and "south h = south g \<Longrightarrow> north m = north n \<Longrightarrow> merge_south h m = merge_south g n"
  using assms by (simp_all add: merge_east_def merge_south_def split: option.splits)

lemma merge_simple [simp]:
  "merge_east (add_keys (simple_names g) g) (add_keys (simple_names n) n) = merge_east g n"
  "merge_south (add_keys (simple_names g) g) (add_keys (simple_names n) n) = merge_south g n"
  by (rule merge_same; simp)+

lemma resolvable_merge_simple:
  "resolvable_merge (map (\<lambda>g. add_keys (simple_names g) g) gs) = resolvable_merge gs"
  by (induction gs rule: resolvable_merge.induct) simp_all

lemma prepare_simple:
  "prepare (map (\<lambda>g. add_keys (simple_names g) g) (prepare gs))
     = map (\<lambda>g. add_keys (simple_names g) g) (prepare gs)"
proof -
  have "add_keys (features g) (add_keys ks (add_keys (features g) g))
          = add_keys ks (add_keys (features g) g)" for ks g
    by (rule add_keys_present) (auto simp: add_keys_strokes)
  then have f: "add_features (add_keys ks (add_features g)) = add_keys ks (add_features g)"
    for ks g
    by (simp add: add_features_keys)
  have e: "filter (\<lambda>g. \<not> is_empty g) (map (\<lambda>g. add_keys (simple_names g) g) (prepare gs))
            = map (\<lambda>g. add_keys (simple_names g) g) (prepare gs)"
    by (induction gs) (simp_all add: prepare_def add_features_keys)
  show ?thesis
    unfolding prepare_def[of "map (\<lambda>g. add_keys (simple_names g) g) (prepare gs)"] e
    by (induction gs) (simp_all add: prepare_def f)
qed

lemma embelish_prepare: "embelish gs = embelish_pass (prepare gs)"
  by (simp add: embelish_def prepare_def)

text \<open>
  C8, amended. When the embellisher combines no name on a sequence (no glyph of it
  passes the test for a combined name with its successor), a second run on its
  output changes nothing.
\<close>

theorem embelish_twice:
  assumes "\<not> resolvable_merge (prepare gs)"
  shows "embelish (embelish gs) = embelish gs"
proof -
  let ?s = "\<lambda>g. add_keys (simple_names g) g"
  have one: "embelish gs = map ?s (prepare gs)"
    using assms by (simp add: embelish_prepare embelish_pass_no_merge)
  have "embelish (map ?s (prepare gs)) = embelish_pass (map ?s (prepare gs))"
    by (simp only: embelish_prepare prepare_simple)
  also have "\<dots> = map ?s (map ?s (prepare gs))"
    using assms by (intro embelish_pass_no_merge) (simp add: resolvable_merge_simple)
  also have "\<dots> = map ?s (prepare gs)"
    by (simp add: simple_twice)
  finally show ?thesis by (simp only: one)
qed


theorem embelish_twice_witness:
  "\<not> resolvable_merge (prepare (parse ''mn''))
   \<and> map strokes (embelish (parse ''mn''))
       = [[''labial'', ''e-south-inner''], [''labial'', ''dental'', ''e-north-outer'']]
   \<and> embelish (embelish (parse ''mn'')) = embelish (parse ''mn'')"
proof -
  have n: "\<not> resolvable_merge (prepare (parse ''mn''))" by code_simp
  have s: "map strokes (embelish (parse ''mn''))
       = [[''labial'', ''e-south-inner''], [''labial'', ''dental'', ''e-north-outer'']]"
    by code_simp
  show ?thesis using embelish_twice[OF n] n s by simp
qed

end
